theory Spec2Isabelle
  imports
    Complex_Main
    "HOL-Library.Word"
    "HOL-Library.Signed_Division"
begin

unbundle bit_operations_syntax

chapter \<open>The PackageManagerShellCommandDataLoader: model\<close>

text \<open>
  A shallow embedding of the native data loader that feeds an incremental file system
  (IncFS) during a package installation: the verity tree sizing, the FileId encoding of
  streaming file indices, the wire codec (request commands, block headers), the block
  assembler (\<open>copyToIncFs\<close>, \<open>flashToIncFs\<close>), the input multiplexer
  (\<open>openInputs\<close>), the prepare driver (\<open>onPrepareImage\<close>) and the streaming
  receiver.

  Conventions. Fixed-width signed integers of the source are \<open>int\<close> values with the
  two's complement wrap-around written out (\<open>int64\<close>, \<open>int32\<close>, \<open>int16\<close>,
  \<open>int8\<close>); C++ integer division, which truncates towards zero, is \<open>sdiv\<close>.
  Bytes are \<open>8 word\<close>. Everything the operating system, the Java side or the file
  system decides (what a read returns, which fd a lookup yields, what
  \<open>writeBlocks\<close> answers) is an explicit input of the model.
\<close>

section \<open>Machine integers\<close>

type_synonym byte = "8 word"

definition int64 :: "int \<Rightarrow> int" where
  "int64 x = signed_take_bit 63 x"

definition int32 :: "int \<Rightarrow> int" where
  "int32 x = signed_take_bit 31 x"

definition int16 :: "int \<Rightarrow> int" where
  "int16 x = signed_take_bit 15 x"

definition int8 :: "int \<Rightarrow> int" where
  "int8 x = signed_take_bit 7 x"

text \<open>Conversion to \<open>size_t\<close> and to \<open>uint16_t\<close> (64-bit target).\<close>

definition size_t :: "int \<Rightarrow> int" where
  "size_t x = x mod 2 ^ 64"

definition uint16 :: "int \<Rightarrow> int" where
  "uint16 x = x mod 2 ^ 16"

lemma int64_bounds: "- (2 ^ 63) \<le> int64 x" "int64 x < 2 ^ 63"
  unfolding int64_def
  using signed_take_bit_int_greater_eq_minus_exp [of 63 x] signed_take_bit_int_less_exp [of 63 x]
  by simp_all

lemma int64_id: "- (2 ^ 63) \<le> x \<Longrightarrow> x < 2 ^ 63 \<Longrightarrow> int64 x = x"
  unfolding int64_def by (simp add: signed_take_bit_int_eq_self)

lemma int16_id: "- (2 ^ 15) \<le> x \<Longrightarrow> x < 2 ^ 15 \<Longrightarrow> int16 x = x"
  unfolding int16_def by (simp add: signed_take_bit_int_eq_self)

lemma sdiv_nonneg: "0 \<le> a \<Longrightarrow> 0 < b \<Longrightarrow> a sdiv b = a div (b::int)"
  by (simp add: signed_divide_int_def sgn_if)

lemma sdiv128_abs: "\<bar>a sdiv (128::int)\<bar> \<le> \<bar>a\<bar> div 128"
  by (simp add: signed_divide_int_def sgn_if abs_mult)

section \<open>Constants\<close>

text \<open>
  Modelled from the spec: \<open>INCFS_DATA_FILE_BLOCK_SIZE\<close> is a macro of the IncFS
  headers, which are not part of the sources at hand. The specification treats it as a
  compile-time constant supplied by the file system and assumes 4 KiB blocks.
\<close>

definition INCFS_DATA_FILE_BLOCK_SIZE :: int where
  "INCFS_DATA_FILE_BLOCK_SIZE = 4096"

definition BUFFER_SIZE :: int where
  "BUFFER_SIZE = 256 * 1024"

definition BLOCKS_COUNT :: int where
  "BLOCKS_COUNT = BUFFER_SIZE sdiv INCFS_DATA_FILE_BLOCK_SIZE"

definition COMMAND_SIZE :: nat where
  "COMMAND_SIZE = 4 + 2 + 2 + 4"

definition HEADER_SIZE :: nat where
  "HEADER_SIZE = 2 + 1 + 1 + 4 + 2"

section \<open>Verity tree size\<close>

text \<open>
  \<open>verityTreeSizeForFile\<close>: all arithmetic is in \<open>IncFsSize\<close> (\<open>int64_t\<close>). The
  loop counter \<open>i\<close> of the source is never read and is left out.
\<close>

definition SHA256_DIGEST_SIZE :: int where
  "SHA256_DIGEST_SIZE = 32"

definition hash_per_block :: int where
  "hash_per_block = INCFS_DATA_FILE_BLOCK_SIZE sdiv SHA256_DIGEST_SIZE"

lemma hash_per_block_eq: "hash_per_block = 128"
  by (simp add: hash_per_block_def INCFS_DATA_FILE_BLOCK_SIZE_def SHA256_DIGEST_SIZE_def
      signed_divide_int_def)

lemma verity_step_less:
  assumes "1 < h"
  shows "int64 (int64 (int64 (h + hash_per_block) - 1) sdiv hash_per_block) < h"
proof (cases "h < 2 ^ 57")
  case True
  have a: "int64 (h + 128) = h + 128"
    by (rule int64_id) (use assms True in simp_all)
  have b: "int64 (h + 128 - 1) = h + 127"
    using assms True by (simp add: int64_id)
  have c: "(h + 127) sdiv 128 = (h + 127) div 128"
    by (rule sdiv_nonneg) (use assms in simp_all)
  have d: "int64 ((h + 127) div 128) = (h + 127) div 128"
    by (rule int64_id) (use assms True in simp_all)
  have "(h + 127) div 128 < h"
    using assms by simp
  then show ?thesis
    unfolding hash_per_block_eq a b c d .
next
  case False
  define y where "y = int64 (int64 (h + 128) - 1)"
  have yb: "\<bar>y\<bar> \<le> 2 ^ 63"
    using int64_bounds [of "int64 (h + 128) - 1"] by (simp add: y_def)
  have "\<bar>y sdiv 128\<bar> \<le> \<bar>y\<bar> div 128"
    by (rule sdiv128_abs)
  also have "\<dots> \<le> 2 ^ 63 div 128"
    by (rule zdiv_mono1) (use yb in simp_all)
  finally have q: "\<bar>y sdiv 128\<bar> \<le> 2 ^ 56"
    by simp
  have p: "(2::int) ^ 56 < 2 ^ 57" "(2::int) ^ 57 < 2 ^ 63"
    by simp_all
  have lo: "- (2 ^ 63) \<le> y sdiv 128" and hi: "y sdiv 128 < 2 ^ 63"
    using q p by linarith+
  have "int64 (y sdiv 128) = y sdiv 128"
    using lo hi by (rule int64_id)
  moreover have "y sdiv 128 < h"
    using q p False by linarith
  ultimately show ?thesis
    unfolding hash_per_block_eq y_def by simp
qed

function verity_loop :: "int \<Rightarrow> int \<Rightarrow> int" where
  "verity_loop hash_block_count total_tree_block_count =
     (if 1 < hash_block_count then
        (let h = int64 (int64 (int64 (hash_block_count + hash_per_block) - 1) sdiv hash_per_block)
         in verity_loop h (int64 (total_tree_block_count + h)))
      else total_tree_block_count)"
  by pat_completeness auto
termination
  by (relation "measure (\<lambda>(h, t). nat h)") (auto simp: verity_step_less)

declare verity_loop.simps [simp del]

definition verityTreeSizeForFile :: "int \<Rightarrow> int" where
  "verityTreeSizeForFile fileSize =
     (let block_count = int64 (1 + int64 (int64 (fileSize - 1) sdiv INCFS_DATA_FILE_BLOCK_SIZE))
      in int64 (verity_loop block_count 0 * INCFS_DATA_FILE_BLOCK_SIZE))"

text \<open>
  The specification's wording of the same quantity, with real-valued ceilings: let
  \<open>B = \<lceil>S / block_size\<rceil>\<close>; while \<open>B > 1\<close>, set
  \<open>B = \<lceil>B / (block_size / 32)\<rceil>\<close> and accumulate; the result is the sum times
  the block size.
\<close>

definition spec_hashes_per_block :: nat where
  "spec_hashes_per_block = nat INCFS_DATA_FILE_BLOCK_SIZE div 32"

lemma ceiling_div_128: "nat \<lceil>real B / 128\<rceil> = (B + 127) div 128"
proof -
  have "\<lceil>real B / 128\<rceil> = \<lceil>of_int (int B) / (of_int 128 :: real)\<rceil>"
    by simp
  also have "\<dots> = - (- int B div 128)"
    by (rule ceiling_divide_eq_div)
  also have "\<dots> = (int B + 127) div 128"
    by arith
  finally show ?thesis
    by (simp add: nat_div_distrib nat_add_distrib)
qed

function spec_tree_blocks :: "nat \<Rightarrow> nat" where
  "spec_tree_blocks B =
     (if 1 < B then
        (let B' = nat \<lceil>real B / real spec_hashes_per_block\<rceil> in B' + spec_tree_blocks B')
      else 0)"
  by pat_completeness auto
termination
  by (relation "measure id")
     (auto simp: spec_hashes_per_block_def INCFS_DATA_FILE_BLOCK_SIZE_def ceiling_div_128)

declare spec_tree_blocks.simps [simp del]

definition spec_verity_tree_size :: "int \<Rightarrow> int" where
  "spec_verity_tree_size S =
     int (spec_tree_blocks (nat \<lceil>real_of_int S / real_of_int INCFS_DATA_FILE_BLOCK_SIZE\<rceil>))
       * INCFS_DATA_FILE_BLOCK_SIZE"

section \<open>Metadata modes and file ids\<close>

text \<open>\<open>enum MetadataMode : int8_t\<close> with its numeric values.\<close>

datatype MetadataMode = STDIN | LOCAL_FILE | DATA_ONLY_STREAMING | STREAMING

fun mode_value :: "MetadataMode \<Rightarrow> int" where
  "mode_value STDIN = 0"
| "mode_value LOCAL_FILE = 1"
| "mode_value DATA_ONLY_STREAMING = 2"
| "mode_value STREAMING = 3"

text \<open>
  A \<open>FileId\<close> (\<open>IncFsFileId\<close>) is a block of 16 bytes; the loader reads and writes it
  through a \<open>char*\<close>. It is a byte list here, of length 16 wherever the loader builds one.
\<close>

type_synonym FileId = "byte list"

text \<open>
  \<open>std::to_chars\<close> and \<open>std::from_chars\<close> of the C++ standard library, base 10, as the
  standard describes them: \<open>to_chars\<close> writes the decimal text of the value (with a
  leading minus sign for a negative one) when it fits between the two pointers and
  reports \<open>value_too_large\<close> otherwise; \<open>from_chars\<close> accepts an optional minus sign
  and the longest run of digits that follows, reports \<open>invalid_argument\<close> when there is
  no digit and \<open>result_out_of_range\<close> when the number does not fit an \<open>int\<close>. The
  results are sums, the error code on the left.
\<close>

datatype errc = invalid_argument | result_out_of_range | value_too_large

definition digit_char :: "nat \<Rightarrow> byte" where
  "digit_char d = of_nat (48 + d)"

function dec_digits :: "nat \<Rightarrow> byte list" where
  "dec_digits n = (if n < 10 then [digit_char n] else dec_digits (n div 10) @ [digit_char (n mod 10)])"
  by pat_completeness auto
termination
  by (relation "measure id") auto

declare dec_digits.simps [simp del]

definition to_chars_text :: "int \<Rightarrow> byte list" where
  "to_chars_text v = (if v < 0 then 45 # dec_digits (nat (- v)) else dec_digits (nat v))"

definition to_chars :: "nat \<Rightarrow> int \<Rightarrow> errc + byte list" where
  "to_chars room v =
     (let chars = to_chars_text v in if length chars \<le> room then Inr chars else Inl value_too_large)"

definition is_digit :: "byte \<Rightarrow> bool" where
  "is_digit b \<longleftrightarrow> 48 \<le> b \<and> b \<le> 57"

definition dec_value :: "byte list \<Rightarrow> nat" where
  "dec_value ds = foldl (\<lambda>a d. 10 * a + (unat d - 48)) 0 ds"

definition from_chars :: "byte list \<Rightarrow> errc + int" where
  "from_chars bs =
     (let neg = (bs \<noteq> [] \<and> hd bs = 45);
          ds = takeWhile is_digit (if neg then tl bs else bs);
          v = (if neg then - int (dec_value ds) else int (dec_value ds))
      in if ds = [] then Inl invalid_argument
         else if v < - (2 ^ 31) \<or> 2 ^ 31 - 1 < v then Inl result_out_of_range
         else Inr v)"

text \<open>
  \<open>convertFileIdToFileIndex\<close>: the first byte is the mode tag, bytes 1 to 15 hold the
  decimal text of the index. The result is a \<open>FileIdx\<close> (\<open>int16_t\<close>), \<open>-1\<close> on every
  failure.
\<close>

definition convertFileIdToFileIndex :: "FileId \<Rightarrow> int" where
  "convertFileIdToFileIndex fileId =
     (case fileId of
        [] \<Rightarrow> - 1
      | m # meta \<Rightarrow>
          (let mode = sint m in
           if mode \<noteq> mode_value DATA_ONLY_STREAMING \<and> mode \<noteq> mode_value STREAMING then - 1
           else (case from_chars (take 15 meta) of
                   Inl ec \<Rightarrow> - 1
                 | Inr fileIdx \<Rightarrow>
                     if fileIdx < - 32768 \<or> 32767 < fileIdx then - 1 else int16 fileIdx)))"

text \<open>
  \<open>convertFileIndexToFileId\<close>: a zero-initialised id, the mode in byte 0 and the text of
  the index from byte 1 on; the value-initialised (all zero) id when \<open>to_chars\<close> fails.
\<close>

definition convertFileIndexToFileId :: "MetadataMode \<Rightarrow> int \<Rightarrow> FileId" where
  "convertFileIndexToFileId mode fileIdx =
     (case to_chars 15 fileIdx of
        Inl ec \<Rightarrow> replicate 16 0
      | Inr chars \<Rightarrow> word_of_int (mode_value mode) # chars @ replicate (15 - length chars) 0)"

section \<open>Byte order\<close>

text \<open>
  Modelled from the spec: \<open>be16toh\<close> and \<open>be32toh\<close> are macros of \<open>endian.h\<close>; they
  swap the bytes of their argument on a little-endian host and are the identity on a
  big-endian one. The byte order of the host is a parameter; \<open>store16\<close>, \<open>store32\<close>,
  \<open>load16\<close> and \<open>load32\<close> are the memory images of integers on that host.
\<close>

datatype endian = LittleEndian | BigEndian

definition le_bytes16 :: "16 word \<Rightarrow> byte list" where
  "le_bytes16 x = [ucast x, ucast (drop_bit 8 x)]"

definition le_bytes32 :: "32 word \<Rightarrow> byte list" where
  "le_bytes32 x = [ucast x, ucast (drop_bit 8 x), ucast (drop_bit 16 x), ucast (drop_bit 24 x)]"

definition le_word16 :: "byte \<Rightarrow> byte \<Rightarrow> 16 word" where
  "le_word16 b0 b1 = ucast b0 OR push_bit 8 (ucast b1)"

definition le_word32 :: "byte \<Rightarrow> byte \<Rightarrow> byte \<Rightarrow> byte \<Rightarrow> 32 word" where
  "le_word32 b0 b1 b2 b3 =
     ucast b0 OR push_bit 8 (ucast b1) OR push_bit 16 (ucast b2) OR push_bit 24 (ucast b3)"

definition bswap16 :: "16 word \<Rightarrow> 16 word" where
  "bswap16 x = le_word16 (ucast (drop_bit 8 x)) (ucast x)"

definition bswap32 :: "32 word \<Rightarrow> 32 word" where
  "bswap32 x =
     le_word32 (ucast (drop_bit 24 x)) (ucast (drop_bit 16 x)) (ucast (drop_bit 8 x)) (ucast x)"

definition be16toh :: "endian \<Rightarrow> 16 word \<Rightarrow> 16 word" where
  "be16toh host x = (case host of LittleEndian \<Rightarrow> bswap16 x | BigEndian \<Rightarrow> x)"

definition be32toh :: "endian \<Rightarrow> 32 word \<Rightarrow> 32 word" where
  "be32toh host x = (case host of LittleEndian \<Rightarrow> bswap32 x | BigEndian \<Rightarrow> x)"

definition store16 :: "endian \<Rightarrow> 16 word \<Rightarrow> byte list" where
  "store16 host x = (case host of LittleEndian \<Rightarrow> le_bytes16 x | BigEndian \<Rightarrow> rev (le_bytes16 x))"

definition store32 :: "endian \<Rightarrow> 32 word \<Rightarrow> byte list" where
  "store32 host x = (case host of LittleEndian \<Rightarrow> le_bytes32 x | BigEndian \<Rightarrow> rev (le_bytes32 x))"

definition load16 :: "endian \<Rightarrow> byte \<Rightarrow> byte \<Rightarrow> 16 word" where
  "load16 host b0 b1 = (case host of LittleEndian \<Rightarrow> le_word16 b0 b1 | BigEndian \<Rightarrow> le_word16 b1 b0)"

definition load32 :: "endian \<Rightarrow> byte \<Rightarrow> byte \<Rightarrow> byte \<Rightarrow> byte \<Rightarrow> 32 word" where
  "load32 host b0 b1 b2 b3 =
     (case host of LittleEndian \<Rightarrow> le_word32 b0 b1 b2 b3 | BigEndian \<Rightarrow> le_word32 b3 b2 b1 b0)"

section \<open>The file system connector\<close>

definition INCFS_BLOCK_KIND_DATA :: int where "INCFS_BLOCK_KIND_DATA = 0"
definition INCFS_BLOCK_KIND_HASH :: int where "INCFS_BLOCK_KIND_HASH = 1"
definition INCFS_COMPRESSION_KIND_NONE :: int where "INCFS_COMPRESSION_KIND_NONE = 0"

text \<open>
  An \<open>IncFsDataBlock\<close>. The \<open>data\<close> pointer is represented by the bytes it points to at
  the moment the block is built, \<open>dataSize\<close> of them when the buffer holds that many.
\<close>

record IncFsDataBlock =
  fileFd :: int
  pageIndex :: int
  compression :: int
  kind :: int
  dataSize :: int
  data :: "byte list"

text \<open>
  The file system (\<open>mIfs\<close>) and the status listener are outside the loader. Their
  answers are functions of what they were asked before; the calls are logged.
\<close>

record ifs_log =
  opened :: "FileId list"
  written :: "IncFsDataBlock list list"

record environment =
  byte_order :: endian
  ifs_open :: "FileId list \<Rightarrow> FileId \<Rightarrow> int"
  ifs_write :: "IncFsDataBlock list list \<Rightarrow> IncFsDataBlock list \<Rightarrow> int"
  isValidFileId :: "FileId \<Rightarrow> bool"

definition openForSpecialOps :: "environment \<Rightarrow> ifs_log \<Rightarrow> FileId \<Rightarrow> int \<times> ifs_log" where
  "openForSpecialOps E ifs fileId =
     (ifs_open E (opened ifs) fileId, ifs\<lparr>opened := opened ifs @ [fileId]\<rparr>)"

definition writeBlocks :: "environment \<Rightarrow> ifs_log \<Rightarrow> IncFsDataBlock list \<Rightarrow> int \<times> ifs_log" where
  "writeBlocks E ifs blocks =
     (ifs_write E (written ifs) blocks, ifs\<lparr>written := written ifs @ [blocks]\<rparr>)"

section \<open>The block assembler\<close>

text \<open>
  The source fd of one input. Each entry of the list is what the next \<open>read\<close> system
  call finds: an error, or the bytes that are available at that moment (none: the call
  returns 0). A read takes at most the number of bytes asked for and leaves the others
  for the next call. On the empty list every read returns 0, the end of the file.
\<close>

datatype read_event = Read_error | Read_bytes "byte list"

fun sys_read :: "read_event list \<Rightarrow> nat \<Rightarrow> int \<times> byte list \<times> read_event list" where
  "sys_read [] n = (0, [], [])"
| "sys_read (Read_error # evs) n = (- 1, [], evs)"
| "sys_read (Read_bytes bs # evs) n =
     (int (min n (length bs)), take n bs,
      if n < length bs then Read_bytes (drop n bs) # evs else evs)"

text \<open>\<open>std::vector<char>::resize\<close>: new elements are zero.\<close>

definition resize :: "nat \<Rightarrow> byte list \<Rightarrow> byte list" where
  "resize n v = take n v @ replicate (n - length v) 0"

text \<open>The bytes a read stores at offset \<open>off\<close> of the vector's memory.\<close>

definition store_at :: "nat \<Rightarrow> byte list \<Rightarrow> byte list \<Rightarrow> byte list" where
  "store_at off bs v = take off v @ bs @ drop (off + length bs) v"

record copy_state =
  buffer :: "byte list"
  blocks :: "IncFsDataBlock list"
  ifs :: ifs_log
  incoming :: "read_event list"

text \<open>
  The \<open>for\<close> loop of \<open>flashToIncFs\<close>, by the number of iterations left. \<open>blockIdx\<close> is an
  \<open>IncFsBlockIndex\<close> (\<open>int32_t\<close>); \<open>consumed\<close> never exceeds the length of the buffer.
\<close>

fun full_blocks_loop ::
  "nat \<Rightarrow> int \<Rightarrow> int \<Rightarrow> byte list \<Rightarrow> int \<Rightarrow> nat \<Rightarrow> IncFsDataBlock list
     \<Rightarrow> int \<times> nat \<times> IncFsDataBlock list" where
  "full_blocks_loop 0 incfsFd knd buf blockIdx consumed blks = (blockIdx, consumed, blks)"
| "full_blocks_loop (Suc n) incfsFd knd buf blockIdx consumed blks =
     (let inst = \<lparr>fileFd = incfsFd,
                  pageIndex = blockIdx,
                  compression = INCFS_COMPRESSION_KIND_NONE,
                  kind = knd,
                  dataSize = INCFS_DATA_FILE_BLOCK_SIZE,
                  data = take (nat INCFS_DATA_FILE_BLOCK_SIZE) (drop consumed buf)\<rparr>
      in full_blocks_loop n incfsFd knd buf (int32 (blockIdx + 1))
           (consumed + nat INCFS_DATA_FILE_BLOCK_SIZE) (blks @ [inst]))"

definition flashToIncFs ::
  "environment \<Rightarrow> int \<Rightarrow> int \<Rightarrow> bool \<Rightarrow> int \<Rightarrow> copy_state \<Rightarrow> bool \<times> int \<times> copy_state" where
  "flashToIncFs E incfsFd knd eof blockIdx st =
     (let fullBlocks = length (buffer st) div nat INCFS_DATA_FILE_BLOCK_SIZE;
          (blockIdx1, consumed1, blocks1) =
             full_blocks_loop fullBlocks incfsFd knd (buffer st) blockIdx 0 (blocks st);
          remain = length (buffer st) - fullBlocks * nat INCFS_DATA_FILE_BLOCK_SIZE;
          (blockIdx2, consumed2, blocks2) =
             (if remain \<noteq> 0 \<and> eof then
                (int32 (blockIdx1 + 1), consumed1 + remain,
                 blocks1 @ [\<lparr>fileFd = incfsFd,
                              pageIndex = blockIdx1,
                              compression = INCFS_COMPRESSION_KIND_NONE,
                              kind = knd,
                              dataSize = uint16 (int remain),
                              data = take remain (drop consumed1 (buffer st))\<rparr>])
              else (blockIdx1, consumed1, blocks1));
          (res, ifs') = writeBlocks E (ifs st) blocks2;
          st' = st\<lparr>blocks := [], buffer := drop consumed2 (buffer st), ifs := ifs'\<rparr>
      in (\<not> res < 0, blockIdx2, st'))"

text \<open>
  The \<open>while\<close> loop of \<open>copyToIncFs\<close>. The first argument bounds the number of
  iterations: with \<open>waitOnEof\<close> the loop need not end. \<open>totalSize\<close> of the source is only
  logged and is left out; the 10 ms sleep has no effect on the state.
\<close>

datatype loop_end =
  Loop_left int copy_state
  | Loop_return_false copy_state
  | Loop_running int copy_state

fun copy_loop ::
  "nat \<Rightarrow> environment \<Rightarrow> int \<Rightarrow> int \<Rightarrow> bool \<Rightarrow> int \<Rightarrow> int \<Rightarrow> copy_state \<Rightarrow> loop_end" where
  "copy_loop 0 E incfsFd knd waitOnEof remaining blockIdx st =
     (if 0 < remaining then Loop_running blockIdx st else Loop_left blockIdx st)"
| "copy_loop (Suc n) E incfsFd knd waitOnEof remaining blockIdx st =
     (if 0 < remaining then
        (let size = int (length (buffer st));
             free = size_t (BUFFER_SIZE - size)
         in if free < INCFS_DATA_FILE_BLOCK_SIZE then
              (case flashToIncFs E incfsFd knd False blockIdx st of
                 (ok, blockIdx', st') \<Rightarrow>
                   if \<not> ok then Loop_return_false st'
                   else copy_loop n E incfsFd knd waitOnEof remaining blockIdx' st')
            else
              (let toRead = min remaining (int64 free);
                   buf1 = resize (nat (size_t (size + toRead))) (buffer st)
               in case sys_read (incoming st) (nat (size_t toRead)) of
                    (rd, bytes, incoming') \<Rightarrow>
                      if rd = 0 then
                        (if waitOnEof then
                           copy_loop n E incfsFd knd waitOnEof remaining blockIdx
                             (st\<lparr>buffer := buf1, incoming := incoming'\<rparr>)
                         else Loop_left blockIdx (st\<lparr>buffer := buf1, incoming := incoming'\<rparr>))
                      else if rd < 0 then
                        Loop_return_false (st\<lparr>buffer := buf1, incoming := incoming'\<rparr>)
                      else
                        copy_loop n E incfsFd knd waitOnEof (int64 (remaining - rd)) blockIdx
                          (st\<lparr>buffer := resize (nat (size_t (size + rd)))
                                             (store_at (nat size) bytes buf1),
                              incoming := incoming'\<rparr>)))
      else Loop_left blockIdx st)"

datatype copy_end = Copy_returned bool copy_state | Copy_running copy_state

definition copyToIncFs ::
  "nat \<Rightarrow> environment \<Rightarrow> int \<Rightarrow> int \<Rightarrow> int \<Rightarrow> bool \<Rightarrow> copy_state \<Rightarrow> copy_end" where
  "copyToIncFs fuel E incfsFd size' knd waitOnEof st =
     (case copy_loop fuel E incfsFd knd waitOnEof size' 0 st of
        Loop_running blockIdx st' \<Rightarrow> Copy_running st'
      | Loop_return_false st' \<Rightarrow> Copy_returned False st'
      | Loop_left blockIdx st' \<Rightarrow>
          (if buffer st' \<noteq> [] then
             (case flashToIncFs E incfsFd knd True blockIdx st' of
                (ok, blockIdx', st'') \<Rightarrow> Copy_returned ok st'')
           else Copy_returned True st'))"

fun end_state :: "copy_end \<Rightarrow> copy_state" where
  "end_state (Copy_returned ok st) = st"
| "end_state (Copy_running st) = st"

fun has_returned :: "copy_end \<Rightarrow> bool" where
  "has_returned (Copy_returned ok st) = True"
| "has_returned (Copy_running st) = False"

section \<open>Wire codec and receiver\<close>

subsection \<open>Request commands\<close>

definition EXIT :: int where "EXIT = 0"
definition BLOCK_MISSING :: int where "BLOCK_MISSING = 1"
definition PREFETCH :: int where "PREFETCH = 2"

definition INCR :: "32 word" where
  "INCR = 0x52434e49"

text \<open>
  Modelled from the spec: \<open>android::base::WriteFully\<close> belongs to libbase. It hands the
  whole buffer to the fd and succeeds only when every byte was taken. The outgoing
  direction of an fd is a record: the buffers passed to \<open>WriteFully\<close> so far, the bytes
  that reached the peer, and how many more bytes the fd is going to take before a write
  fails (decided by the environment).
\<close>

record out_channel =
  requests :: "byte list list"
  wire :: "byte list"
  room :: nat

definition WriteFully :: "out_channel \<Rightarrow> byte list \<Rightarrow> bool \<times> out_channel" where
  "WriteFully ch bs =
     (length bs \<le> room ch,
      ch\<lparr>requests := requests ch @ [bs],
         wire := wire ch @ take (room ch) bs,
         room := room ch - length bs\<rparr>)"

text \<open>
  \<open>sendRequest\<close>: the packed \<open>RequestCommand\<close> is the magic in host order followed by
  the three fields, each passed through \<open>be16toh\<close> / \<open>be32toh\<close> and stored in host
  order. The arguments are \<open>int16_t\<close>, \<open>int16_t\<close> and \<open>int32_t\<close> values.
\<close>

definition RequestCommand :: "endian \<Rightarrow> int \<Rightarrow> int \<Rightarrow> int \<Rightarrow> byte list" where
  "RequestCommand host requestType fileIdx blockIdx =
     store32 host INCR
     @ store16 host (be16toh host (word_of_int requestType))
     @ store16 host (be16toh host (word_of_int fileIdx))
     @ store32 host (be32toh host (word_of_int blockIdx))"

definition sendRequest :: "endian \<Rightarrow> out_channel \<Rightarrow> int \<Rightarrow> int \<Rightarrow> int \<Rightarrow> bool \<times> out_channel" where
  "sendRequest host fd requestType fileIdx blockIdx =
     WriteFully fd (RequestCommand host requestType fileIdx blockIdx)"

subsection \<open>Block headers\<close>

record BlockHeader =
  fileIdx :: int
  blockType :: int
  compressionType :: int
  blockIdx :: int
  blockSize :: int

definition default_BlockHeader :: BlockHeader where
  "default_BlockHeader =
     \<lparr>fileIdx = - 1, blockType = - 1, compressionType = - 1, blockIdx = - 1, blockSize = - 1\<rparr>"

text \<open>
  \<open>readHeader\<close> takes the span by reference: the result is the header and the span that
  is left. The multi-byte fields are loaded in host order and passed through
  \<open>be16toh\<close> / \<open>be32toh\<close>.
\<close>

definition readHeader :: "endian \<Rightarrow> byte list \<Rightarrow> BlockHeader \<times> byte list" where
  "readHeader host bytes =
     (if length bytes < HEADER_SIZE then (default_BlockHeader, bytes)
      else
        (\<lparr>fileIdx = sint (be16toh host (load16 host (bytes ! 0) (bytes ! 1))),
          blockType = sint (bytes ! 2),
          compressionType = sint (bytes ! 3),
          blockIdx = sint (be32toh host (load32 host (bytes ! 4) (bytes ! 5) (bytes ! 6) (bytes ! 7))),
          blockSize = sint (be16toh host (load16 host (bytes ! 8) (bytes ! 9)))\<rparr>,
         drop HEADER_SIZE bytes))"

subsection \<open>Chunks\<close>

text \<open>
  Modelled from the spec: \<open>android::base::ReadFully\<close> (libbase) reads exactly the number
  of bytes asked for, or fails. The incoming direction of the channel is the list of
  bytes the peer sends before closing it; a failed read leaves nothing behind.
\<close>

definition ReadFully :: "byte list \<Rightarrow> nat \<Rightarrow> byte list option \<times> byte list" where
  "ReadFully inp n = (if n \<le> length inp then (Some (take n inp), drop n inp) else (None, []))"

definition readChunk :: "endian \<Rightarrow> byte list \<Rightarrow> byte list option \<times> byte list" where
  "readChunk host inp =
     (case ReadFully inp 4 of
        (None, rest) \<Rightarrow> (None, rest)
      | (Some sz, rest) \<Rightarrow>
          (let size = sint (be32toh host (load32 host (sz ! 0) (sz ! 1) (sz ! 2) (sz ! 3)))
           in if size \<le> 0 then (None, rest) else ReadFully rest (nat size)))"

definition POLLIN :: int where "POLLIN = 1"

text \<open>What one call of \<open>poll\<close> on the two fds reports: its result and both \<open>revents\<close>.\<close>

record poll_result =
  poll_res :: int
  revents_fd :: int
  revents_event :: int

definition waitForDataOrSignal :: "int \<Rightarrow> int \<Rightarrow> poll_result \<Rightarrow> int" where
  "waitForDataOrSignal fd event_fd p =
     (if poll_res p \<le> 0 then poll_res p
      else if revents_event p = POLLIN then event_fd
      else if revents_fd p = POLLIN then fd
      else - 1)"

datatype DataLoaderStatus = DATA_LOADER_UNRECOVERABLE

subsection \<open>The receiver\<close>

record receiver_state =
  mStopReceiving :: bool
  inout_in :: "byte list"
  inout_out :: out_channel
  instructions :: "IncFsDataBlock list"
  writeFds :: "int \<rightharpoonup> int"
  mIfs :: ifs_log
  reported :: "DataLoaderStatus list"
  mOutFd_open :: bool

definition is_sentinel :: "BlockHeader \<Rightarrow> bool" where
  "is_sentinel header \<longleftrightarrow>
     fileIdx header = - 1 \<and> blockType header = 0 \<and> compressionType header = 0
     \<and> blockIdx header = 0 \<and> blockSize header = 0"

definition is_invalid :: "BlockHeader \<Rightarrow> bool" where
  "is_invalid header \<longleftrightarrow>
     fileIdx header < 0 \<or> blockSize header \<le> 0 \<or> blockType header < 0
     \<or> compressionType header < 0 \<or> blockIdx header < 0"

definition send_EXIT :: "environment \<Rightarrow> receiver_state \<Rightarrow> receiver_state" where
  "send_EXIT E s = s\<lparr>inout_out := snd (sendRequest (byte_order E) (inout_out s) EXIT (- 1) (- 1))\<rparr>"

text \<open>
  How the walk over one chunk ends: it leaves the loop (by its condition or a
  \<open>break\<close>), or it calls \<open>subspan\<close> with an offset beyond the end of the span, which is
  undefined behaviour.
\<close>

datatype walk_result = Left_loop receiver_state | Subspan_out_of_range receiver_state

lemma readHeader_consumes:
  "\<not> is_invalid (fst (readHeader h d)) \<Longrightarrow> length (snd (readHeader h d)) < length d"
  by (auto simp: readHeader_def is_invalid_def default_BlockHeader_def HEADER_SIZE_def)

function walk_chunk :: "environment \<Rightarrow> MetadataMode \<Rightarrow> byte list \<Rightarrow> receiver_state \<Rightarrow> walk_result" where
  "walk_chunk E mode remainingData s =
     (if remainingData = [] then Left_loop s
      else
        (let header = fst (readHeader (byte_order E) remainingData);
             rest = snd (readHeader (byte_order E) remainingData)
         in if is_sentinel header then Left_loop ((send_EXIT E s)\<lparr>mStopReceiving := True\<rparr>)
            else if is_invalid header then Left_loop (s\<lparr>mStopReceiving := True\<rparr>)
            else
              (let fileId = convertFileIndexToFileId mode (fileIdx header) in
               if \<not> isValidFileId E fileId then walk_chunk E mode rest s
               else
                 (let writeFd = (case writeFds s (fileIdx header) of None \<Rightarrow> - 1 | Some fd \<Rightarrow> fd);
                      opn = openForSpecialOps E (mIfs s) fileId;
                      writeFd' = (if writeFd < 0 then fst opn else writeFd);
                      s1 = s\<lparr>writeFds := (writeFds s)(fileIdx header \<mapsto> writeFd'),
                              mIfs := (if writeFd < 0 then snd opn else mIfs s)\<rparr>
                  in if writeFd' < 0 then Left_loop s1
                     else
                       (let inst = \<lparr>fileFd = writeFd',
                                    pageIndex = int32 (blockIdx header),
                                    compression = compressionType header,
                                    kind = blockType header,
                                    dataSize = uint16 (blockSize header),
                                    data = take (nat (blockSize header)) rest\<rparr>;
                            s2 = s1\<lparr>instructions := instructions s1 @ [inst]\<rparr>
                        in if int (length rest) < blockSize header then Subspan_out_of_range s2
                           else walk_chunk E mode (drop (nat (blockSize header)) rest) s2)))))"
  by pat_completeness auto
termination
  by (relation "measure (\<lambda>(E, mode, d, s). length d)")
     (auto dest: readHeader_consumes)

declare walk_chunk.simps [simp del]

definition writeInstructions :: "environment \<Rightarrow> receiver_state \<Rightarrow> receiver_state" where
  "writeInstructions E s =
     s\<lparr>mIfs := snd (writeBlocks E (mIfs s) (instructions s)), instructions := []\<rparr>"

definition reportStatus :: "DataLoaderStatus \<Rightarrow> receiver_state \<Rightarrow> receiver_state" where
  "reportStatus st s = s\<lparr>reported := reported s @ [st]\<rparr>"

text \<open>
  The outer loop of \<open>receiver\<close>. Each iteration starts with one \<open>poll\<close>; the list holds
  what the successive polls report. \<open>None\<close>: the polls at hand are used up and the
  thread is still in the loop. \<open>inout\<close> and \<open>mEventFd\<close> are the fd numbers.
\<close>

datatype receiver_end = Returned receiver_state | Undefined_behaviour receiver_state

fun receiver_loop ::
  "environment \<Rightarrow> MetadataMode \<Rightarrow> int \<Rightarrow> int \<Rightarrow> poll_result list \<Rightarrow> receiver_state
     \<Rightarrow> receiver_end option" where
  "receiver_loop E mode inout mEventFd [] s =
     (if mStopReceiving s then Some (Returned s) else None)"
| "receiver_loop E mode inout mEventFd (p # ps) s =
     (if mStopReceiving s then Some (Returned s)
      else
        (let res = waitForDataOrSignal inout mEventFd p in
         if res = 0 then receiver_loop E mode inout mEventFd ps s
         else if res < 0 then Some (Returned (reportStatus DATA_LOADER_UNRECOVERABLE s))
         else if res = mEventFd then Some (Returned (send_EXIT E s))
         else
           (case readChunk (byte_order E) (inout_in s) of
              (None, rest) \<Rightarrow>
                Some (Returned (reportStatus DATA_LOADER_UNRECOVERABLE (s\<lparr>inout_in := rest\<rparr>)))
            | (Some chunk, rest) \<Rightarrow>
                (case walk_chunk E mode chunk (s\<lparr>inout_in := rest\<rparr>) of
                   Subspan_out_of_range s' \<Rightarrow> Some (Undefined_behaviour s')
                 | Left_loop s' \<Rightarrow>
                     receiver_loop E mode inout mEventFd ps (writeInstructions E s')))))"

definition receiver ::
  "environment \<Rightarrow> MetadataMode \<Rightarrow> int \<Rightarrow> int \<Rightarrow> poll_result list \<Rightarrow> receiver_state
     \<Rightarrow> receiver_end option" where
  "receiver E mode inout mEventFd polls s =
     (case receiver_loop E mode inout mEventFd polls s of
        None \<Rightarrow> None
      | Some (Undefined_behaviour s') \<Rightarrow> Some (Undefined_behaviour s')
      | Some (Returned s') \<Rightarrow> Some (Returned ((writeInstructions E s')\<lparr>mOutFd_open := False\<rparr>)))"

section \<open>Concrete inputs\<close>

text \<open>
  A little-endian host with a file system that opens every file as fd 7 and accepts every
  batch, an idle receiver state, a poll result that reports incoming data, and an assembler
  state with an empty buffer and an exhausted source.
\<close>

definition env0 :: environment where
  "env0 = \<lparr>byte_order = LittleEndian, ifs_open = (\<lambda>h f. 7),
            ifs_write = (\<lambda>h bs. int (length bs)), isValidFileId = (\<lambda>f. True)\<rparr>"

definition receiver0 :: receiver_state where
  "receiver0 =
     \<lparr>mStopReceiving = False, inout_in = [],
      inout_out = \<lparr>requests = [], wire = [], room = 1000\<rparr>,
      instructions = [], writeFds = Map.empty, mIfs = \<lparr>opened = [], written = []\<rparr>,
      reported = [], mOutFd_open = True\<rparr>"

definition data_ready :: poll_result where
  "data_ready = \<lparr>poll_res = 1, revents_fd = POLLIN, revents_event = 0\<rparr>"

definition copy0 :: copy_state where
  "copy0 = \<lparr>buffer = [], blocks = [], ifs = \<lparr>opened = [], written = []\<rparr>, incoming = []\<rparr>"

chapter \<open>Verification\<close>

section \<open>Verity tree size\<close>

lemma spec_tree_blocks_unfold:
  "spec_tree_blocks B =
     (if 1 < B then (B + 127) div 128 + spec_tree_blocks ((B + 127) div 128) else 0)"
  by (subst spec_tree_blocks.simps)
     (simp add: spec_hashes_per_block_def INCFS_DATA_FILE_BLOCK_SIZE_def ceiling_div_128 Let_def)

lemma tree_level_halves: "1 < (B::nat) \<Longrightarrow> 2 * ((B + 127) div 128) \<le> B"
  by arith

lemma spec_tree_blocks_less: "0 < B \<Longrightarrow> spec_tree_blocks B < B"
proof (induction B rule: less_induct)
  case (less B)
  show ?case
  proof (cases "1 < B")
    case True
    define q where "q = (B + 127) div 128"
    have lt: "q < B" and pos: "0 < q"
      using True by (simp_all add: q_def)
    have "spec_tree_blocks B = q + spec_tree_blocks q"
      using True by (subst spec_tree_blocks_unfold) (simp add: q_def)
    also have "\<dots> < q + q"
      using less.IH [OF lt pos] by simp
    also have "\<dots> \<le> B"
      using tree_level_halves [OF True] by (simp add: q_def)
    finally show ?thesis .
  next
    case False
    then show ?thesis
      using less.prems by (subst spec_tree_blocks_unfold) simp
  qed
qed

lemma verity_loop_spec:
  "0 \<le> t \<Longrightarrow> t + int B < 2 ^ 62 \<Longrightarrow> verity_loop (int B) t = t + int (spec_tree_blocks B)"
proof (induction B arbitrary: t rule: less_induct)
  case (less B)
  show ?case
  proof (cases "1 < B")
    case False
    then show ?thesis
      by (subst verity_loop.simps, subst spec_tree_blocks_unfold) simp
  next
    case True
    define B' where "B' = (B + 127) div 128"
    have lt: "B' < B"
      using True by (simp add: B'_def)
    have Bb: "int B < 2 ^ 62"
      using less.prems by simp
    have a: "int64 (int B + 128) = int B + 128"
      by (rule int64_id) (use Bb in simp_all)
    have b: "int64 (int B + 128 - 1) = int B + 127"
      using Bb by (simp add: int64_id)
    have c: "(int B + 127) sdiv 128 = (int B + 127) div 128"
      by (rule sdiv_nonneg) simp_all
    have e: "(int B + 127) div 128 = int B'"
      by (simp add: B'_def zdiv_int)
    have d: "int64 (int B') = int B'"
      by (rule int64_id) (use Bb lt in simp_all)
    have h: "int64 (int64 (int64 (int B + hash_per_block) - 1) sdiv hash_per_block) = int B'"
      unfolding hash_per_block_eq a b c e d ..
    have f: "int64 (t + int B') = t + int B'"
      by (rule int64_id) (use less.prems lt in simp_all)
    have g: "t + int B' + int B' < 2 ^ 62"
    proof -
      have "2 * B' \<le> B"
        using True unfolding B'_def by (rule tree_level_halves)
      then show ?thesis
        using less.prems by linarith
    qed
    have "verity_loop (int B) t = verity_loop (int B') (t + int B')"
      using True by (subst verity_loop.simps) (simp add: h f Let_def)
    also have "\<dots> = t + int B' + int (spec_tree_blocks B')"
      by (rule less.IH [OF lt]) (use less.prems g in simp_all)
    also have "\<dots> = t + int (spec_tree_blocks B)"
      using True by (subst (2) spec_tree_blocks_unfold) (simp add: B'_def)
    finally show ?thesis .
  qed
qed

lemma ceil_blocks_pos: "0 < (S::int) \<Longrightarrow> 1 + (S - 1) div 4096 = - (- S div 4096)"
  by arith

lemma ceil_blocks_nonneg: "0 \<le> (S::int) \<Longrightarrow> 0 \<le> - (- S div 4096)"
  by arith

lemma ceil_blocks_bound:
  assumes "(S::int) < 2 ^ 63"
  shows "- (- S div 4096) \<le> 2 ^ 51"
proof -
  have "(- (2 ^ 63)) div 4096 \<le> (- S) div (4096::int)"
    by (rule zdiv_mono1) (use assms in simp_all)
  moreover have "(- (2 ^ 63)) div (4096::int) = - (2 ^ 51)"
    by simp
  ultimately show ?thesis
    by linarith
qed

text \<open>
  Claim C3. For every non-negative file size \<open>S\<close> (an \<open>IncFsSize\<close>, so below
  \<open>2^63\<close>), \<open>verityTreeSizeForFile S\<close> is the sum the specification describes:
  start from \<open>B = \<lceil>S / block_size\<rceil>\<close>, replace \<open>B\<close> by
  \<open>\<lceil>B / (block_size / 32)\<rceil>\<close> while \<open>B > 1\<close>, add up the values so obtained
  and multiply by the block size. No intermediate value of the 64-bit computation
  overflows.
\<close>

theorem verityTreeSizeForFile_spec:
  assumes "0 \<le> S" and "S < 2 ^ 63"
  shows "verityTreeSizeForFile S = spec_verity_tree_size S"
proof -
  define B where "B = nat \<lceil>real_of_int S / real_of_int INCFS_DATA_FILE_BLOCK_SIZE\<rceil>"
  have Bc: "int B = - (- S div 4096)"
  proof -
    have "\<lceil>real_of_int S / real_of_int 4096\<rceil> = - (- S div 4096)"
      by (rule ceiling_divide_eq_div)
    moreover have "0 \<le> - (- S div 4096)"
      using assms(1) by (rule ceil_blocks_nonneg)
    ultimately show ?thesis
      by (simp add: B_def INCFS_DATA_FILE_BLOCK_SIZE_def)
  qed
  have Bb: "int B \<le> 2 ^ 51"
    unfolding Bc using assms(2) by (rule ceil_blocks_bound)
  have a: "int64 (S - 1) = S - 1"
    by (rule int64_id) (use assms in simp_all)
  have loop: "verity_loop (int64 (1 + int64 (int64 (S - 1) sdiv 4096))) 0
      = int (spec_tree_blocks B)"
  proof (cases "S = 0")
    case True
    then have "B = 0"
      using Bc by simp
    moreover have "int64 (1 + int64 (int64 (S - 1) sdiv 4096)) = 1"
      using True by (simp add: int64_def signed_divide_int_def)
    ultimately show ?thesis
      by (simp add: verity_loop.simps [of 1] spec_tree_blocks_unfold [of 0])
  next
    case False
    then have pos: "0 < S"
      using assms by simp
    have b: "(S - 1) sdiv 4096 = (S - 1) div 4096"
      by (rule sdiv_nonneg) (use pos in simp_all)
    have c: "int64 ((S - 1) div 4096) = (S - 1) div 4096"
      by (rule int64_id) (use assms pos in simp_all)
    have d: "1 + (S - 1) div 4096 = int B"
      unfolding Bc using pos by (rule ceil_blocks_pos)
    have e: "int64 (int B) = int B"
      by (rule int64_id) (use Bb in simp_all)
    have "int64 (1 + int64 (int64 (S - 1) sdiv 4096)) = int B"
      unfolding a b c d e ..
    moreover have "verity_loop (int B) 0 = 0 + int (spec_tree_blocks B)"
      by (rule verity_loop_spec) (use Bb in simp_all)
    ultimately show ?thesis
      by simp
  qed
  have "int (spec_tree_blocks B) < 2 ^ 51"
  proof (cases "0 < B")
    case True
    then show ?thesis
      using spec_tree_blocks_less [OF True] Bb by linarith
  next
    case False
    then show ?thesis
      by (simp add: spec_tree_blocks_unfold [of 0])
  qed
  then have "int (spec_tree_blocks B) * 4096 < 2 ^ 51 * 4096"
    by (rule mult_strict_right_mono) simp
  then have "int (spec_tree_blocks B) * 4096 < 2 ^ 63"
    by simp
  then have "int64 (int (spec_tree_blocks B) * 4096) = int (spec_tree_blocks B) * 4096"
    by (intro int64_id) simp_all
  then show ?thesis
    using loop by (simp add: verityTreeSizeForFile_def spec_verity_tree_size_def B_def
        INCFS_DATA_FILE_BLOCK_SIZE_def Let_def)
qed

theorem verityTreeSizeForFile_spec_witness:
  "(0::int) \<le> 8192 \<and> (8192::int) < 2 ^ 63
     \<and> verityTreeSizeForFile 8192 = spec_verity_tree_size 8192"
  using verityTreeSizeForFile_spec [of 8192] by simp

section \<open>File ids\<close>

lemma digit_byte_unat: "d < 10 \<Longrightarrow> unat (digit_char d) = 48 + d"
  unfolding digit_char_def by (simp add: unat_of_nat del: of_nat_add)

lemma digit_byte_is_digit: "d < 10 \<Longrightarrow> is_digit (digit_char d)"
  unfolding is_digit_def word_le_nat_alt
  by (simp only: digit_byte_unat) simp

lemma zero_not_digit: "\<not> is_digit 0"
  by (simp add: is_digit_def)

lemma minus_not_digit: "\<not> is_digit 45"
  by (simp add: is_digit_def)

lemma dec_digits_all_digits: "b \<in> set (dec_digits n) \<Longrightarrow> is_digit b"
proof (induction n arbitrary: b rule: dec_digits.induct)
  case (1 n)
  show ?case
  proof (cases "n < 10")
    case True
    with "1.prems" show ?thesis
      by (subst (asm) dec_digits.simps) (simp add: digit_byte_is_digit)
  next
    case False
    have "n mod 10 < 10"
      by simp
    then have "is_digit (digit_char (n mod 10))"
      by (rule digit_byte_is_digit)
    with False "1.prems" "1.IH" show ?thesis
      by (subst (asm) dec_digits.simps) auto
  qed
qed

lemma dec_digits_nonempty: "dec_digits n \<noteq> []"
  by (subst dec_digits.simps) simp

lemma dec_value_snoc: "dec_value (ds @ [d]) = 10 * dec_value ds + (unat d - 48)"
  by (simp add: dec_value_def)

lemma dec_value_dec_digits: "dec_value (dec_digits n) = n"
proof (induction n rule: dec_digits.induct)
  case (1 n)
  show ?case
  proof (cases "n < 10")
    case True
    then show ?thesis
      by (subst dec_digits.simps) (simp add: dec_value_def digit_byte_unat)
  next
    case False
    have m: "n mod 10 < 10"
      by simp
    have "dec_value (dec_digits n) = 10 * dec_value (dec_digits (n div 10)) + n mod 10"
      using False
      by (subst dec_digits.simps) (simp add: dec_value_snoc digit_byte_unat [OF m])
    then show ?thesis
      using "1.IH" False by simp
  qed
qed

lemma dec_digits_length: "0 < k \<Longrightarrow> n < 10 ^ k \<Longrightarrow> length (dec_digits n) \<le> k"
proof (induction k arbitrary: n)
  case 0
  then show ?case by simp
next
  case (Suc k)
  show ?case
  proof (cases "n < 10")
    case True
    then show ?thesis
      by (subst dec_digits.simps) simp
  next
    case False
    then have k: "0 < k"
      using Suc.prems by (cases k) simp_all
    have "n div 10 < 10 ^ k"
      using Suc.prems by (simp add: less_mult_imp_div_less mult.commute)
    then have "length (dec_digits (n div 10)) \<le> k"
      using k by (intro Suc.IH)
    then show ?thesis
      using False by (subst dec_digits.simps) simp
  qed
qed

lemma takeWhile_digits_zeros:
  "takeWhile is_digit (dec_digits n @ replicate k 0) = dec_digits n"
proof -
  have "takeWhile is_digit (replicate k 0) = []"
    by (cases k) (simp_all add: zero_not_digit)
  moreover have "\<forall>b \<in> set (dec_digits n). is_digit b"
    using dec_digits_all_digits by blast
  ultimately show ?thesis
    by (simp add: takeWhile_append2)
qed

lemma hd_dec_digits_not_minus: "hd (dec_digits n @ zs) \<noteq> 45"
proof -
  have "hd (dec_digits n) \<in> set (dec_digits n)"
    using dec_digits_nonempty by (rule hd_in_set)
  then have "is_digit (hd (dec_digits n))"
    by (rule dec_digits_all_digits)
  then have "hd (dec_digits n) \<noteq> 45"
    using minus_not_digit by auto
  then show ?thesis
    using dec_digits_nonempty [of n] by simp
qed

lemma to_chars_text_length:
  assumes "- 32768 \<le> x" and "x \<le> 32767"
  shows "length (to_chars_text x) \<le> 6"
proof (cases "x < 0")
  case True
  have "nat (- x) < 10 ^ 5"
    using assms by simp
  then have "length (dec_digits (nat (- x))) \<le> 5"
    by (intro dec_digits_length) simp_all
  then show ?thesis
    using True by (simp add: to_chars_text_def)
next
  case False
  have "nat x < 10 ^ 5"
    using assms by simp
  then have "length (dec_digits (nat x)) \<le> 5"
    by (intro dec_digits_length) simp_all
  then show ?thesis
    using False by (simp add: to_chars_text_def)
qed

lemma to_chars_fits:
  assumes "- 32768 \<le> x" and "x \<le> 32767"
  shows "to_chars 15 x = Inr (to_chars_text x)"
  using to_chars_text_length [OF assms] by (simp add: to_chars_def Let_def)

lemma from_chars_to_chars_text:
  assumes "- 32768 \<le> x" and "x \<le> 32767"
  shows "from_chars (to_chars_text x @ replicate k 0) = Inr x"
proof (cases "x < 0")
  case True
  have "from_chars (45 # dec_digits (nat (- x)) @ replicate k 0) = Inr x"
    using True assms dec_digits_nonempty [of "nat (- x)"]
    by (simp add: from_chars_def Let_def takeWhile_digits_zeros dec_value_dec_digits)
  then show ?thesis
    using True by (simp add: to_chars_text_def)
next
  case False
  have "from_chars (dec_digits (nat x) @ replicate k 0) = Inr x"
    using False assms dec_digits_nonempty [of "nat x"] hd_dec_digits_not_minus [of "nat x"]
    by (simp add: from_chars_def Let_def takeWhile_digits_zeros dec_value_dec_digits)
  then show ?thesis
    using False by (simp add: to_chars_text_def)
qed

lemma mode_byte_sint: "sint (word_of_int (mode_value mode) :: byte) = mode_value mode"
  by (cases mode) simp_all

text \<open>
  Claim C4. For both streaming modes and every 16-bit file index \<open>x\<close>, encoding
  \<open>x\<close> into a FileId with \<open>convertFileIndexToFileId\<close> and decoding the result
  with \<open>convertFileIdToFileIndex\<close> gives \<open>x\<close> back: the mode tag passes the check
  and the decimal text in bytes 1 to 15 parses to the same number.
\<close>

theorem fileId_roundtrip:
  assumes "mode \<in> {DATA_ONLY_STREAMING, STREAMING}"
    and "- 32768 \<le> x" and "x \<le> 32767"
  shows "convertFileIdToFileIndex (convertFileIndexToFileId mode x) = x"
proof -
  define cs where "cs = to_chars_text x"
  have len: "length cs \<le> 6"
    unfolding cs_def using assms(2,3) by (rule to_chars_text_length)
  have enc: "convertFileIndexToFileId mode x
      = word_of_int (mode_value mode) # cs @ replicate (15 - length cs) 0"
    by (simp add: convertFileIndexToFileId_def to_chars_fits [OF assms(2,3)] cs_def)
  have tk: "take 15 (cs @ replicate (15 - length cs) 0) = cs @ replicate (15 - length cs) 0"
    using len by simp
  have dec: "from_chars (cs @ replicate (15 - length cs) 0) = Inr x"
    unfolding cs_def using assms(2,3) by (rule from_chars_to_chars_text)
  have md: "mode_value mode = 2 \<or> mode_value mode = 3"
    using assms(1) by auto
  have "int16 x = x"
    by (rule int16_id) (use assms in simp_all)
  then show ?thesis
    unfolding enc convertFileIdToFileIndex_def
    using md assms(2,3) by (auto simp: Let_def mode_byte_sint tk dec simp del: take_append)
qed

theorem fileId_roundtrip_witness:
  "STREAMING \<in> {DATA_ONLY_STREAMING, STREAMING} \<and> - 32768 \<le> (- 32768 :: int)
     \<and> (- 32768 :: int) \<le> 32767
     \<and> convertFileIdToFileIndex (convertFileIndexToFileId STREAMING (- 32768)) = - 32768"
  using fileId_roundtrip [of STREAMING "- 32768"] by simp

text \<open>
  Claim C10. For every mode and every 16-bit file index, \<open>to_chars\<close> succeeds inside
  \<open>convertFileIndexToFileId\<close> (the text has at most 6 characters and 15 are
  available), so the all-zero failure value is never returned: the result has 16 bytes
  and its first byte is the mode.
\<close>

theorem index_to_fileId_total:
  assumes "- 32768 \<le> x" and "x \<le> 32767"
  shows "(\<exists>chars. length chars \<le> 6 \<and> to_chars 15 x = Inr chars)
    \<and> length (convertFileIndexToFileId mode x) = 16
    \<and> sint (hd (convertFileIndexToFileId mode x)) = mode_value mode"
proof -
  have len: "length (to_chars_text x) \<le> 6"
    using assms by (rule to_chars_text_length)
  then show ?thesis
    by (simp add: convertFileIndexToFileId_def to_chars_fits [OF assms] mode_byte_sint)
qed

theorem index_to_fileId_total_witness:
  "- 32768 \<le> (32767 :: int) \<and> (32767 :: int) \<le> 32767
    \<and> (\<exists>chars. length chars \<le> 6 \<and> to_chars 15 32767 = Inr chars)
    \<and> length (convertFileIndexToFileId LOCAL_FILE 32767) = 16
    \<and> sint (hd (convertFileIndexToFileId LOCAL_FILE 32767)) = mode_value LOCAL_FILE"
  using index_to_fileId_total [of 32767 LOCAL_FILE] by simp

section \<open>Wire codec and receiver\<close>

lemma le_bytes16_le_word16: "le_bytes16 (le_word16 a b) = [a, b]"
  unfolding le_bytes16_def le_word16_def
  by (simp, intro conjI; rule bit_word_eqI; auto simp: bit_simps dest: bit_imp_le_length)

lemma le_bytes32_le_word32: "le_bytes32 (le_word32 a b c d) = [a, b, c, d]"
  unfolding le_bytes32_def le_word32_def
  by (simp, intro conjI; rule bit_word_eqI; auto simp: bit_simps dest: bit_imp_le_length)

lemma le_bytes16_bswap16: "le_bytes16 (bswap16 x) = rev (le_bytes16 x)"
  unfolding bswap16_def le_bytes16_le_word16 by (simp add: le_bytes16_def)

lemma le_bytes32_bswap32: "le_bytes32 (bswap32 x) = rev (le_bytes32 x)"
  unfolding bswap32_def le_bytes32_le_word32 by (simp add: le_bytes32_def)

lemma bswap16_le_word16: "bswap16 (le_word16 a b) = le_word16 b a"
  using le_bytes16_le_word16 [of a b] by (simp add: bswap16_def le_bytes16_def)

lemma bswap32_le_word32: "bswap32 (le_word32 a b c d) = le_word32 d c b a"
  using le_bytes32_le_word32 [of a b c d] by (simp add: bswap32_def le_bytes32_def)

lemma be16toh_load16: "be16toh h (load16 h a b) = le_word16 b a"
  by (cases h) (simp_all add: be16toh_def load16_def bswap16_le_word16)

lemma be32toh_load32: "be32toh h (load32 h a b c d) = le_word32 d c b a"
  by (cases h) (simp_all add: be32toh_def load32_def bswap32_le_word32)

lemma length_store16: "length (store16 h x) = 2"
  by (cases h) (simp_all add: store16_def le_bytes16_def)

lemma length_store32: "length (store32 h x) = 4"
  by (cases h) (simp_all add: store32_def le_bytes32_def)

lemma length_RequestCommand: "length (RequestCommand h rt fi bi) = 12"
  by (simp add: RequestCommand_def length_store16 length_store32)

lemma store16_be16toh_LittleEndian:
  "store16 LittleEndian (be16toh LittleEndian x) = rev (store16 LittleEndian x)"
  by (simp add: store16_def be16toh_def le_bytes16_bswap16)

lemma store32_be32toh_LittleEndian:
  "store32 LittleEndian (be32toh LittleEndian x) = rev (store32 LittleEndian x)"
  by (simp add: store32_def be32toh_def le_bytes32_bswap32)

lemma store32_INCR: "store32 LittleEndian INCR = [0x49, 0x4E, 0x43, 0x52]"
  by (simp add: store32_def INCR_def le_bytes32_def)

text \<open>
  Claim C6. \<open>sendRequest\<close> hands exactly 12 bytes to one \<open>WriteFully\<close> call, whatever
  the arguments and the host. On a little-endian host the first four bytes are
  \<open>I N C R\<close> (the magic \<open>0x52434E49\<close> in host order) and each field is the host image
  of the value with its bytes reversed, which is what \<open>be16toh\<close> / \<open>be32toh\<close> do to
  a host-order value there. The call reports success exactly when the fd takes all 12
  bytes.
\<close>

theorem sendRequest_command:
  "length (RequestCommand h req idx blk) = COMMAND_SIZE
   \<and> RequestCommand LittleEndian req idx blk
       = [0x49, 0x4E, 0x43, 0x52]
         @ rev (store16 LittleEndian (word_of_int req))
         @ rev (store16 LittleEndian (word_of_int idx))
         @ rev (store32 LittleEndian (word_of_int blk))
   \<and> sendRequest h fd req idx blk
       = (COMMAND_SIZE \<le> room fd,
          fd\<lparr>requests := requests fd @ [RequestCommand h req idx blk],
             wire := wire fd @ take (room fd) (RequestCommand h req idx blk),
             room := room fd - COMMAND_SIZE\<rparr>)"
  by (simp add: sendRequest_def WriteFully_def length_RequestCommand COMMAND_SIZE_def)
     (simp add: RequestCommand_def store16_be16toh_LittleEndian store32_be32toh_LittleEndian
        store32_INCR)

lemma readHeader_short:
  "length d < HEADER_SIZE \<Longrightarrow> readHeader h d = (default_BlockHeader, d)"
  by (simp add: readHeader_def)

lemma default_not_sentinel: "\<not> is_sentinel default_BlockHeader"
  by (simp add: is_sentinel_def default_BlockHeader_def)

lemma default_invalid: "is_invalid default_BlockHeader"
  by (simp add: is_invalid_def default_BlockHeader_def)

lemma sentinel_invalid: "is_sentinel hdr \<Longrightarrow> is_invalid hdr"
  by (simp add: is_sentinel_def is_invalid_def)

lemma walk_chunk_sentinel:
  assumes "is_sentinel (fst (readHeader (byte_order E) chunk))"
  shows "walk_chunk E mode chunk s = Left_loop ((send_EXIT E s)\<lparr>mStopReceiving := True\<rparr>)"
proof -
  have "chunk \<noteq> []"
    using assms default_not_sentinel by (auto simp: readHeader_def HEADER_SIZE_def)
  then show ?thesis
    using assms by (subst walk_chunk.simps) (simp add: Let_def)
qed

lemma walk_chunk_invalid:
  assumes "chunk \<noteq> []"
    and "\<not> is_sentinel (fst (readHeader (byte_order E) chunk))"
    and "is_invalid (fst (readHeader (byte_order E) chunk))"
  shows "walk_chunk E mode chunk s = Left_loop (s\<lparr>mStopReceiving := True\<rparr>)"
  using assms by (subst walk_chunk.simps) (simp add: Let_def)

text \<open>
  Claim C9. On a span shorter than one header \<open>readHeader\<close> returns the default header,
  every field \<open>-1\<close>, and leaves the span as it is. The walk over a chunk therefore
  treats any non-empty fragment shorter than a header as an invalid header (not as the
  sentinel): it sets \<open>mStopReceiving\<close> and leaves the loop, without reading beyond the
  fragment and without another iteration.
\<close>

theorem readHeader_short_input:
  assumes "length d < HEADER_SIZE"
  shows "readHeader (byte_order E) d = (default_BlockHeader, d)
    \<and> fileIdx default_BlockHeader = - 1 \<and> blockType default_BlockHeader = - 1
    \<and> compressionType default_BlockHeader = - 1 \<and> blockIdx default_BlockHeader = - 1
    \<and> blockSize default_BlockHeader = - 1
    \<and> (d \<noteq> [] \<longrightarrow> walk_chunk E mode d s = Left_loop (s\<lparr>mStopReceiving := True\<rparr>))"
proof -
  have rh: "readHeader (byte_order E) d = (default_BlockHeader, d)"
    using assms by (rule readHeader_short)
  have "walk_chunk E mode d s = Left_loop (s\<lparr>mStopReceiving := True\<rparr>)" if "d \<noteq> []"
    using that by (rule walk_chunk_invalid) (simp_all add: rh default_not_sentinel default_invalid)
  then show ?thesis
    using rh by (simp add: default_BlockHeader_def)
qed

theorem readHeader_short_input_witness:
  "length [1, 2, 3 :: byte] < HEADER_SIZE
    \<and> readHeader (byte_order env0) [1, 2, 3] = (default_BlockHeader, [1, 2, 3])
    \<and> walk_chunk env0 STREAMING [1, 2, 3] receiver0
        = Left_loop (receiver0\<lparr>mStopReceiving := True\<rparr>)"
  using readHeader_short_input [of "[1, 2, 3]" env0 STREAMING receiver0]
  by (simp add: HEADER_SIZE_def)

lemma requests_send_EXIT:
  "requests (inout_out (send_EXIT E s))
     = requests (inout_out s) @ [RequestCommand (byte_order E) EXIT (- 1) (- 1)]"
  by (simp add: send_EXIT_def sendRequest_def WriteFully_def)

lemma send_EXIT_other_fields:
  "mStopReceiving (send_EXIT E s) = mStopReceiving s"
  "reported (send_EXIT E s) = reported s"
  "mIfs (send_EXIT E s) = mIfs s"
  "instructions (send_EXIT E s) = instructions s"
  "inout_in (send_EXIT E s) = inout_in s"
  by (simp_all add: send_EXIT_def)

lemma writeInstructions_fields:
  "mStopReceiving (writeInstructions E s) = mStopReceiving s"
  "reported (writeInstructions E s) = reported s"
  "inout_out (writeInstructions E s) = inout_out s"
  "instructions (writeInstructions E s) = []"
  "opened (mIfs (writeInstructions E s)) = opened (mIfs s)"
  "written (mIfs (writeInstructions E s)) = written (mIfs s) @ [instructions s]"
  by (simp_all add: writeInstructions_def writeBlocks_def)

lemma receiver_loop_stopped:
  "mStopReceiving s \<Longrightarrow> receiver_loop E mode inout ev ps s = Some (Returned s)"
  by (cases ps) simp_all

lemma sentinel_bytes:
  "is_sentinel (fst (readHeader h ([0xFF, 0xFF, 0, 0, 0, 0, 0, 0, 0, 0] @ xs)))"
  by (simp add: readHeader_def HEADER_SIZE_def is_sentinel_def be16toh_load16 be32toh_load32
      le_word16_def le_word32_def)

lemma zero_bytes_not_sentinel:
  "\<not> is_sentinel (fst (readHeader h ([0, 0, 0, 0, 0, 0, 0, 0, 0, 0] @ xs)))"
  by (simp add: readHeader_def HEADER_SIZE_def is_sentinel_def be16toh_load16 be32toh_load32
      le_word16_def le_word32_def)

text \<open>
  Claim C5. When the receiver is running, the poll reports data and the chunk read
  starts with a header that decodes to the sentinel (\<open>fileIdx = -1\<close>, every other field
  \<open>0\<close>), the receiver returns, whatever later polls would report: it has sent exactly
  one more request, the \<open>EXIT\<close> command, has set \<open>mStopReceiving\<close>, has reported no
  status, has opened no file, and has passed the pending instructions and then an empty
  batch to \<open>writeBlocks\<close>. The test is on the decoded fields: the bytes
  \<open>FF FF 00 .. 00\<close> are the sentinel, ten zero bytes are not.
\<close>

theorem sentinel_sends_one_EXIT:
  assumes "\<not> mStopReceiving s"
    and "0 < inout" and "inout \<noteq> mEventFd"
    and "waitForDataOrSignal inout mEventFd p = inout"
    and "readChunk (byte_order E) (inout_in s) = (Some chunk, rest)"
    and "is_sentinel (fst (readHeader (byte_order E) chunk))"
  shows "(\<exists>s'. receiver E mode inout mEventFd (p # ps) s = Some (Returned s')
      \<and> requests (inout_out s')
          = requests (inout_out s) @ [RequestCommand (byte_order E) EXIT (- 1) (- 1)]
      \<and> mStopReceiving s' \<and> reported s' = reported s
      \<and> opened (mIfs s') = opened (mIfs s)
      \<and> written (mIfs s') = written (mIfs s) @ [instructions s, []]
      \<and> \<not> mOutFd_open s')
    \<and> is_sentinel (fst (readHeader (byte_order E) ([0xFF, 0xFF, 0, 0, 0, 0, 0, 0, 0, 0] @ xs)))
    \<and> \<not> is_sentinel (fst (readHeader (byte_order E) ([0, 0, 0, 0, 0, 0, 0, 0, 0, 0] @ xs)))"
proof -
  define s1 where "s1 = (send_EXIT E (s\<lparr>inout_in := rest\<rparr>))\<lparr>mStopReceiving := True\<rparr>"
  define s2 where "s2 = writeInstructions E s1"
  have walk: "walk_chunk E mode chunk (s\<lparr>inout_in := rest\<rparr>) = Left_loop s1"
    unfolding s1_def using assms(6) by (rule walk_chunk_sentinel)
  have stop2: "mStopReceiving s2"
    by (simp add: s2_def s1_def writeInstructions_fields)
  have loop: "receiver_loop E mode inout mEventFd (p # ps) s = Some (Returned s2)"
    using assms(1-5) walk receiver_loop_stopped [OF stop2]
    by (simp add: Let_def s2_def)
  have run: "receiver E mode inout mEventFd (p # ps) s
      = Some (Returned ((writeInstructions E s2)\<lparr>mOutFd_open := False\<rparr>))"
    by (simp only: receiver_def loop option.case receiver_end.case)
  have "requests (inout_out ((writeInstructions E s2)\<lparr>mOutFd_open := False\<rparr>))
      = requests (inout_out s) @ [RequestCommand (byte_order E) EXIT (- 1) (- 1)]"
    by (simp add: writeInstructions_fields s2_def s1_def requests_send_EXIT)
  moreover have "written (mIfs ((writeInstructions E s2)\<lparr>mOutFd_open := False\<rparr>))
      = written (mIfs s) @ [instructions s, []]"
    by (simp add: writeInstructions_fields s2_def s1_def send_EXIT_other_fields)
  moreover have "opened (mIfs ((writeInstructions E s2)\<lparr>mOutFd_open := False\<rparr>))
      = opened (mIfs s)"
    by (simp add: writeInstructions_fields s2_def s1_def send_EXIT_other_fields)
  moreover have "reported ((writeInstructions E s2)\<lparr>mOutFd_open := False\<rparr>) = reported s"
    by (simp add: writeInstructions_fields s2_def s1_def send_EXIT_other_fields)
  moreover have "mStopReceiving ((writeInstructions E s2)\<lparr>mOutFd_open := False\<rparr>)"
    by (simp add: writeInstructions_fields stop2)
  ultimately show ?thesis
    using run sentinel_bytes zero_bytes_not_sentinel by simp
qed

lemma readChunk_10:
  "length c = 10 \<Longrightarrow> readChunk LittleEndian ([0, 0, 0, 10] @ c) = (Some c, [])"
  by (simp add: readChunk_def ReadFully_def be32toh_load32 le_word32_def)

lemma minus_one_words:
  "(word_of_int (- 1) :: 16 word) = 0xFFFF" "(word_of_int (- 1) :: 32 word) = 0xFFFFFFFF"
  by simp_all

lemma RequestCommand_EXIT:
  "RequestCommand LittleEndian EXIT (- 1) (- 1)
     = [0x49, 0x4E, 0x43, 0x52, 0, 0, 0xFF, 0xFF, 0xFF, 0xFF, 0xFF, 0xFF]"
  unfolding RequestCommand_def store16_be16toh_LittleEndian store32_be32toh_LittleEndian
    store32_INCR EXIT_def minus_one_words
  by (simp add: store16_def store32_def le_bytes16_def le_bytes32_def)

theorem sentinel_sends_one_EXIT_witness:
  "\<not> mStopReceiving (receiver0\<lparr>inout_in := [0, 0, 0, 10, 0xFF, 0xFF, 0, 0, 0, 0, 0, 0, 0, 0]\<rparr>)
    \<and> (0::int) < 3 \<and> (3::int) \<noteq> 4
    \<and> waitForDataOrSignal 3 4 data_ready = 3
    \<and> readChunk (byte_order env0) [0, 0, 0, 10, 0xFF, 0xFF, 0, 0, 0, 0, 0, 0, 0, 0]
        = (Some [0xFF, 0xFF, 0, 0, 0, 0, 0, 0, 0, 0], [])
    \<and> is_sentinel (fst (readHeader (byte_order env0) [0xFF, 0xFF, 0, 0, 0, 0, 0, 0, 0, 0]))
    \<and> (\<exists>s'. receiver env0 STREAMING 3 4 [data_ready]
              (receiver0\<lparr>inout_in := [0, 0, 0, 10, 0xFF, 0xFF, 0, 0, 0, 0, 0, 0, 0, 0]\<rparr>)
            = Some (Returned s')
         \<and> requests (inout_out s')
             = [[0x49, 0x4E, 0x43, 0x52, 0, 0, 0xFF, 0xFF, 0xFF, 0xFF, 0xFF, 0xFF]]
         \<and> mStopReceiving s' \<and> reported s' = [] \<and> written (mIfs s') = [[], []])"
proof -
  let ?s = "receiver0\<lparr>inout_in := [0, 0, 0, 10, 0xFF, 0xFF, 0, 0, 0, 0, 0, 0, 0, 0]\<rparr>"
  have a: "\<not> mStopReceiving ?s"
    by (simp add: receiver0_def)
  have b: "waitForDataOrSignal 3 4 data_ready = 3"
    by (simp add: waitForDataOrSignal_def data_ready_def POLLIN_def)
  have h: "byte_order env0 = LittleEndian"
    by (simp add: env0_def)
  have c: "readChunk (byte_order env0) (inout_in ?s) = (Some [0xFF, 0xFF, 0, 0, 0, 0, 0, 0, 0, 0], [])"
    using readChunk_10 [of "[0xFF, 0xFF, 0, 0, 0, 0, 0, 0, 0, 0]"] by (simp add: h)
  have d: "is_sentinel (fst (readHeader (byte_order env0) [0xFF, 0xFF, 0, 0, 0, 0, 0, 0, 0, 0]))"
    using sentinel_bytes [of "byte_order env0" "[]"] by simp
  have "\<exists>s'. receiver env0 STREAMING 3 4 [data_ready] ?s = Some (Returned s')
      \<and> requests (inout_out s')
          = requests (inout_out ?s) @ [RequestCommand (byte_order env0) EXIT (- 1) (- 1)]
      \<and> mStopReceiving s' \<and> reported s' = reported ?s
      \<and> opened (mIfs s') = opened (mIfs ?s)
      \<and> written (mIfs s') = written (mIfs ?s) @ [instructions ?s, []]
      \<and> \<not> mOutFd_open s'"
    using sentinel_sends_one_EXIT
      [where mode = STREAMING and ps = "[]" and xs = "[]", OF a _ _ b c d] by simp
  then obtain s' where s': "receiver env0 STREAMING 3 4 [data_ready] ?s = Some (Returned s')"
      "requests (inout_out s')
          = requests (inout_out ?s) @ [RequestCommand (byte_order env0) EXIT (- 1) (- 1)]"
      "mStopReceiving s'" "reported s' = reported ?s"
      "written (mIfs s') = written (mIfs ?s) @ [instructions ?s, []]"
    by blast
  have "requests (inout_out s')
      = [[0x49, 0x4E, 0x43, 0x52, 0, 0, 0xFF, 0xFF, 0xFF, 0xFF, 0xFF, 0xFF]]"
    using s'(2) by (simp add: h RequestCommand_EXIT receiver0_def)
  moreover have "reported s' = []" "written (mIfs s') = [[], []]"
    using s'(4,5) by (simp_all add: receiver0_def)
  ultimately have "\<exists>s'. receiver env0 STREAMING 3 4 [data_ready] ?s = Some (Returned s')
         \<and> requests (inout_out s')
             = [[0x49, 0x4E, 0x43, 0x52, 0, 0, 0xFF, 0xFF, 0xFF, 0xFF, 0xFF, 0xFF]]
         \<and> mStopReceiving s' \<and> reported s' = [] \<and> written (mIfs s') = [[], []]"
    using s'(1,3) by blast
  moreover have "readChunk (byte_order env0) [0, 0, 0, 10, 0xFF, 0xFF, 0, 0, 0, 0, 0, 0, 0, 0]
        = (Some [0xFF, 0xFF, 0, 0, 0, 0, 0, 0, 0, 0], [])"
    using c by simp
  ultimately show ?thesis
    using a b d by simp
qed

text \<open>
  Claim C7. A chunk whose header has \<open>fileIdx = 5\<close> and \<open>blockSize = -1\<close> is an invalid,
  non-sentinel header. The receiver sets \<open>mStopReceiving\<close>, drains the instructions and
  returns, but the status listener is never called: \<open>reported\<close> stays empty, while the
  two other fatal paths of the loop (poll failure, \<open>readChunk\<close> failure) do report
  \<open>DATA_LOADER_UNRECOVERABLE\<close>.
\<close>

theorem invalid_header_not_reported:
  "receiver env0 STREAMING 3 4 [data_ready]
      (receiver0\<lparr>inout_in := [0, 0, 0, 10, 0, 5, 0, 0, 0, 0, 0, 0, 0xFF, 0xFF]\<rparr>)
    = Some (Returned (receiver0\<lparr>mStopReceiving := True,
          mIfs := \<lparr>opened = [], written = [[], []]\<rparr>, mOutFd_open := False\<rparr>))
   \<and> fst (readHeader LittleEndian [0, 5, 0, 0, 0, 0, 0, 0, 0xFF, 0xFF])
      = \<lparr>fileIdx = 5, blockType = 0, compressionType = 0, blockIdx = 0, blockSize = - 1\<rparr>
   \<and> reported (receiver0\<lparr>mStopReceiving := True,
          mIfs := \<lparr>opened = [], written = [[], []]\<rparr>, mOutFd_open := False\<rparr>) = []"
proof -
  have hdr: "fst (readHeader LittleEndian [0, 5, 0, 0, 0, 0, 0, 0, 0xFF, 0xFF])
      = \<lparr>fileIdx = 5, blockType = 0, compressionType = 0, blockIdx = 0, blockSize = - 1\<rparr>"
    by (simp add: readHeader_def HEADER_SIZE_def be16toh_load16 be32toh_load32
        le_word16_def le_word32_def)
  have walk: "walk_chunk env0 STREAMING [0, 5, 0, 0, 0, 0, 0, 0, 0xFF, 0xFF] s
      = Left_loop (s\<lparr>mStopReceiving := True\<rparr>)" for s
    by (rule walk_chunk_invalid) (simp_all add: env0_def hdr is_sentinel_def is_invalid_def)
  have rc: "readChunk LittleEndian [0, 0, 0, 10, 0, 5, 0, 0, 0, 0, 0, 0, 0xFF, 0xFF]
      = (Some [0, 5, 0, 0, 0, 0, 0, 0, 0xFF, 0xFF], [])"
    using readChunk_10 [of "[0, 5, 0, 0, 0, 0, 0, 0, 0xFF, 0xFF]"] by simp
  have b: "waitForDataOrSignal 3 4 data_ready = 3"
    by (simp add: waitForDataOrSignal_def data_ready_def POLLIN_def)
  have h: "byte_order env0 = LittleEndian"
    by (simp add: env0_def)
  have "receiver env0 STREAMING 3 4 [data_ready]
      (receiver0\<lparr>inout_in := [0, 0, 0, 10, 0, 5, 0, 0, 0, 0, 0, 0, 0xFF, 0xFF]\<rparr>)
    = Some (Returned (receiver0\<lparr>mStopReceiving := True,
          mIfs := \<lparr>opened = [], written = [[], []]\<rparr>, mOutFd_open := False\<rparr>))"
    by (simp add: receiver_def b Let_def walk rc h receiver0_def writeInstructions_def
        writeBlocks_def)
  then show ?thesis
    using hdr by (simp add: receiver0_def)
qed

end
